theory Spec2Isabelle
  imports Main "HOL-Library.Sublist" "HOL-Library.Code_Target_Nat"
begin

section \<open>Python strings\<close>

text \<open>
  A Python \<^verbatim>\<open>str\<close> is a sequence of Unicode code points. A text is modelled as the
  list of its code points, so that \<^verbatim>\<open>len\<close> is \<open>length\<close>; \<open>str\<close> turns an ASCII literal
  of the source into a text.
\<close>

type_synonym pystr = "nat list"

definition str :: "string \<Rightarrow> pystr" where
  "str cs = map of_char cs"

definition cp :: "char \<Rightarrow> nat" where
  "cp c = of_char c"

definition newline :: nat where
  "newline = 10"

text \<open>
  The character classes of \<^verbatim>\<open>str.strip\<close>, \<^verbatim>\<open>\s\<close> and \<^verbatim>\<open>\w\<close> are those of the
  interpreter's Unicode database. On ASCII they are fixed and written out here
  (whitespace is \<^verbatim>\<open>\t \n \v \f \r\<close>, the separators \<^verbatim>\<open>\x1c\<close> to \<^verbatim>\<open>\x1f\<close> and the
  space; a word character is a letter, a digit or the underscore); above ASCII the
  database is a parameter.
\<close>

record ucd =
  uspace :: "nat \<Rightarrow> bool"
  ualnum :: "nat \<Rightarrow> bool"

definition is_lower :: "nat \<Rightarrow> bool" where
  "is_lower c = (cp CHR ''a'' \<le> c \<and> c \<le> cp CHR ''z'')"

definition is_upper :: "nat \<Rightarrow> bool" where
  "is_upper c = (cp CHR ''A'' \<le> c \<and> c \<le> cp CHR ''Z'')"

definition is_digit :: "nat \<Rightarrow> bool" where
  "is_digit c = (cp CHR ''0'' \<le> c \<and> c \<le> cp CHR ''9'')"

definition is_space :: "ucd \<Rightarrow> nat \<Rightarrow> bool" where
  "is_space U c =
     (if c < 128 then (9 \<le> c \<and> c \<le> 13) \<or> (28 \<le> c \<and> c \<le> 32) else uspace U c)"

definition is_word :: "ucd \<Rightarrow> nat \<Rightarrow> bool" where
  "is_word U c =
     (if c < 128 then is_lower c \<or> is_upper c \<or> is_digit c \<or> c = cp CHR ''_''
      else ualnum U c)"

definition rstrip :: "ucd \<Rightarrow> pystr \<Rightarrow> pystr" where
  "rstrip U s = rev (dropWhile (is_space U) (rev s))"

definition strip :: "ucd \<Rightarrow> pystr \<Rightarrow> pystr" where
  "strip U s = dropWhile (is_space U) (rstrip U s)"

definition startswith :: "pystr \<Rightarrow> pystr \<Rightarrow> bool" where
  "startswith s p = prefix p s"

definition endswith :: "pystr \<Rightarrow> pystr \<Rightarrow> bool" where
  "endswith s p = suffix p s"

text \<open>\<^verbatim>\<open>sub in s\<close>: \<open>sub\<close> occurs in \<open>s\<close> as a contiguous piece.\<close>

fun py_in :: "pystr \<Rightarrow> pystr \<Rightarrow> bool" where
  "py_in sub [] = (sub = [])"
| "py_in sub (c # cs) = (prefix sub (c # cs) \<or> py_in sub cs)"

text \<open>
  The lines of a text file as iteration over the file and \<^verbatim>\<open>readlines\<close> give them:
  cut after each newline, the newline kept; a last line without newline is a line; the
  empty file has no line. (The file is opened in text mode with universal newlines, so
  the newline of the decoded text is \<^verbatim>\<open>\n\<close>.)
\<close>

fun readlines :: "pystr \<Rightarrow> pystr list" where
  "readlines [] = []"
| "readlines (c # cs) =
     (if c = newline then [c] # readlines cs
      else (case readlines cs of [] \<Rightarrow> [c] # [] | l # ls \<Rightarrow> (c # l) # ls))"

text \<open>\<^verbatim>\<open>str(n)\<close> for an integer: its decimal digits, with a minus sign when negative.\<close>

fun str_nat :: "nat \<Rightarrow> pystr" where
  "str_nat n =
     (if n < 10 then [cp CHR ''0'' + n]
      else str_nat (n div 10) @ [cp CHR ''0'' + n mod 10])"

definition str_int :: "int \<Rightarrow> pystr" where
  "str_int i = (if i < 0 then cp CHR ''-'' # str_nat (nat (- i)) else str_nat (nat i))"


section \<open>Regular expressions\<close>

text \<open>
  The patterns of the source are sequences of these items: a literal character, one
  character of a class, a greedy repetition of a class (\<^verbatim>\<open>*\<close> is \<open>Rep p 0\<close>, \<^verbatim>\<open>+\<close> is
  \<open>Rep p 1\<close>), the anchors \<^verbatim>\<open>^\<close> and \<^verbatim>\<open>$\<close> (without the MULTILINE flag), a negative
  lookahead \<^verbatim>\<open>(?!...)\<close>, and \<open>Mark\<close> for an opening or closing parenthesis of a capturing
  group, which records the position.

  \<open>rmatch p i rest\<close> matches \<open>p\<close> at position \<open>i\<close> of a subject whose remainder from
  \<open>i\<close> on is \<open>rest\<close>, as the backtracking matcher of \<^verbatim>\<open>re\<close> does: a repetition takes the
  longest run first and gives characters back one at a time until what follows matches.
  The result is the end position and the recorded positions.
\<close>

datatype item =
    Chr nat
  | Cls "nat \<Rightarrow> bool"
  | Rep "nat \<Rightarrow> bool" nat
  | Bol
  | Eol
  | NegLook "item list"
  | Mark

fun first_some :: "'a option list \<Rightarrow> 'a option" where
  "first_some [] = None"
| "first_some (None # xs) = first_some xs"
| "first_some (Some x # xs) = Some x"

function rmatch :: "item list \<Rightarrow> nat \<Rightarrow> pystr \<Rightarrow> (nat \<times> nat list) option" where
  "rmatch [] i rest = Some (i, [])"
| "rmatch (Chr c # r) i rest =
     (case rest of [] \<Rightarrow> None | x # xs \<Rightarrow> if x = c then rmatch r (Suc i) xs else None)"
| "rmatch (Cls p # r) i rest =
     (case rest of [] \<Rightarrow> None | x # xs \<Rightarrow> if p x then rmatch r (Suc i) xs else None)"
| "rmatch (Rep p m # r) i rest =
     first_some (map (\<lambda>k. rmatch r (i + k) (drop k rest))
       (rev [m ..< Suc (length (takeWhile p rest))]))"
| "rmatch (Bol # r) i rest = (if i = 0 then rmatch r i rest else None)"
| "rmatch (Eol # r) i rest =
     (if rest = [] \<or> rest = [newline] then rmatch r i rest else None)"
| "rmatch (NegLook q # r) i rest =
     (case rmatch q i rest of None \<Rightarrow> rmatch r i rest | Some _ \<Rightarrow> None)"
| "rmatch (Mark # r) i rest =
     (case rmatch r i rest of None \<Rightarrow> None | Some (e, ms) \<Rightarrow> Some (e, i # ms))"
  by pat_completeness auto
termination
  by (relation "measure (\<lambda>(p, i, rest). size_list size p)") auto

text \<open>\<^verbatim>\<open>re.match(p, s)\<close> is not None.\<close>

definition re_match :: "item list \<Rightarrow> pystr \<Rightarrow> bool" where
  "re_match p s = (rmatch p 0 s \<noteq> None)"

text \<open>
  \<^verbatim>\<open>re.search\<close>: the match at the leftmost position that has one, as
  (start, end, recorded positions).
\<close>

fun search_from :: "item list \<Rightarrow> nat \<Rightarrow> pystr \<Rightarrow> (nat \<times> nat \<times> nat list) option" where
  "search_from p i [] =
     (case rmatch p i [] of None \<Rightarrow> None | Some (e, ms) \<Rightarrow> Some (i, e, ms))"
| "search_from p i (x # xs) =
     (case rmatch p i (x # xs) of
        None \<Rightarrow> search_from p (Suc i) xs
      | Some (e, ms) \<Rightarrow> Some (i, e, ms))"

definition re_search :: "item list \<Rightarrow> pystr \<Rightarrow> bool" where
  "re_search p s = (search_from p 0 s \<noteq> None)"

text \<open>
  \<^verbatim>\<open>re.finditer\<close>: the successive non-overlapping matches from left to right; the scan
  resumes where the last match ended (one further on after an empty match, which the
  patterns used with it never produce).
\<close>

function finditer_from :: "item list \<Rightarrow> nat \<Rightarrow> pystr \<Rightarrow> (nat \<times> nat \<times> nat list) list" where
  "finditer_from p i rest =
     (case rmatch p i rest of
        None \<Rightarrow> (case rest of [] \<Rightarrow> [] | x # xs \<Rightarrow> finditer_from p (Suc i) xs)
      | Some (e, ms) \<Rightarrow>
          (i, e, ms) #
          (if rest = [] then []
           else finditer_from p (i + max 1 (e - i)) (drop (max 1 (e - i)) rest)))"
  by pat_completeness auto
termination
  by (relation "measure (\<lambda>(p, i, rest). length rest)") auto

definition finditer :: "item list \<Rightarrow> pystr \<Rightarrow> (nat \<times> nat \<times> nat list) list" where
  "finditer p s = finditer_from p 0 s"

section \<open>The patterns of the checker\<close>

definition lit :: "string \<Rightarrow> item list" where
  "lit cs = map (\<lambda>c. Chr (of_char c)) cs"

definition is_alnum_ascii :: "nat \<Rightarrow> bool" where
  "is_alnum_ascii c = (is_lower c \<or> is_upper c \<or> is_digit c)"

text \<open>\<^verbatim>\<open>^[a-z][a-zA-Z0-9]*$\<close>\<close>

definition camel_case_pattern :: "item list" where
  "camel_case_pattern = [Bol, Cls is_lower, Rep is_alnum_ascii 0, Eol]"

text \<open>\<^verbatim>\<open>^[a-z][a-z0-9-]*[a-z0-9]$\<close>\<close>

definition kebab_case_pattern :: "item list" where
  "kebab_case_pattern =
     [Bol, Cls is_lower, Rep (\<lambda>c. is_lower c \<or> is_digit c \<or> c = cp CHR ''-'') 0,
      Cls (\<lambda>c. is_lower c \<or> is_digit c), Eol]"

text \<open>\<^verbatim>\<open>class\s+(?!^[A-Z][a-zA-Z0-9]*$)(\w+)\<close>\<close>

definition class_pattern :: "ucd \<Rightarrow> item list" where
  "class_pattern U =
     lit ''class'' @
     [Rep (is_space U) 1,
      NegLook [Bol, Cls is_upper, Rep is_alnum_ascii 0, Eol],
      Mark, Rep (is_word U) 1, Mark]"

text \<open>\<^verbatim>\<open>interface\s+(?!^I[A-Z][a-zA-Z0-9]*$)(\w+)\<close>\<close>

definition interface_pattern :: "ucd \<Rightarrow> item list" where
  "interface_pattern U =
     lit ''interface'' @
     [Rep (is_space U) 1,
      NegLook [Bol, Chr (cp CHR ''I''), Cls is_upper, Rep is_alnum_ascii 0, Eol],
      Mark, Rep (is_word U) 1, Mark]"

text \<open>\<^verbatim>\<open>TODO\s*\(@\w+\)\<close>\<close>

definition todo_pattern :: "ucd \<Rightarrow> item list" where
  "todo_pattern U =
     lit ''TODO'' @
     [Rep (is_space U) 0, Chr (cp CHR ''(''), Chr (cp CHR ''@''), Rep (is_word U) 1,
      Chr (cp CHR '')'')]"

text \<open>\<^verbatim>\<open>\s*function\<close>\<close>

definition function_pattern :: "ucd \<Rightarrow> item list" where
  "function_pattern U = Rep (is_space U) 0 # lit ''function''"

text \<open>\<^verbatim>\<open>\s*const\s+\w+\s*=\s*function\<close>\<close>

definition const_function_pattern :: "ucd \<Rightarrow> item list" where
  "const_function_pattern U =
     Rep (is_space U) 0 # lit ''const'' @
     [Rep (is_space U) 1, Rep (is_word U) 1, Rep (is_space U) 0, Chr (cp CHR ''=''),
      Rep (is_space U) 0] @
     lit ''function''"

section \<open>Data model\<close>

record ConventionViolation =
  file_path :: pystr
  line_number :: int
  rule :: pystr
  message :: pystr

text \<open>
  The checker object: \<^verbatim>\<open>__init__\<close> stores the project path and an empty violation
  list; every check appends to the list.
\<close>

record TypeScriptConventionChecker =
  project_path :: pystr
  violations :: "ConventionViolation list"

definition init :: "pystr \<Rightarrow> TypeScriptConventionChecker" where
  "init p = \<lparr>project_path = p, violations = []\<rparr>"

definition append_violation ::
  "TypeScriptConventionChecker \<Rightarrow> ConventionViolation \<Rightarrow> TypeScriptConventionChecker" where
  "append_violation c v = c\<lparr>violations := violations c @ [v]\<rparr>"

subsection \<open>Exceptions and the world outside\<close>

text \<open>
  An exception that leaves a method is the \<open>Inl\<close> of its result. \<open>OSError\<close> stands for
  the class and its subclasses (\<^verbatim>\<open>FileNotFoundError\<close>, \<^verbatim>\<open>PermissionError\<close>, ...).
  \<open>Unmodelled\<close> is not an exception of Python: it marks a value that Python would store
  in a field of a violation against the field's annotation (a file path or a message
  that is not a string, a line that is not an integer), which this model of the
  dataclass cannot hold.
\<close>

datatype py_error =
    OSError
  | UnicodeDecodeError
  | CalledProcessError
  | KeyError
  | TypeError
  | AttributeError
  | ValueError
  | Unmodelled

text \<open>The values \<^verbatim>\<open>json.loads\<close> returns; the keys of an object are distinct.\<close>

datatype json =
    JNull
  | JBool bool
  | JInt int
  | JFloat
  | JStr pystr
  | JArr "json list"
  | JObj "(pystr \<times> json) list"

text \<open>
  \<^verbatim>\<open>subprocess.run\<close> either raises or returns a completed process with its return code
  and its standard output.
\<close>

datatype run_result =
    Raises py_error
  | CompletedProcess int pystr

text \<open>
  What the checker reads from outside: \<^verbatim>\<open>os.path.exists\<close>; \<^verbatim>\<open>os.walk\<close> as the list of
  its (root, directories, files) triples; opening a file in text mode with UTF-8 and
  reading it, which raises or gives the decoded text; running the lint command in a
  directory; \<^verbatim>\<open>json.loads\<close>, \<open>None\<close> when it raises \<^verbatim>\<open>JSONDecodeError\<close>; the Unicode
  database; the current directory. The world does not change during a run: every check
  that opens a file finds what the check before it found.
\<close>

record env =
  path_exists :: "pystr \<Rightarrow> bool"
  walk :: "pystr \<Rightarrow> (pystr \<times> pystr list \<times> pystr list) list"
  open_read :: "pystr \<Rightarrow> py_error + pystr"
  subprocess_run :: "pystr \<Rightarrow> run_result"
  json_loads :: "pystr \<Rightarrow> json option"
  unicode :: ucd
  getcwd :: pystr

subsection \<open>Paths (\<^verbatim>\<open>posixpath\<close>)\<close>

definition sep :: nat where
  "sep = cp CHR ''/''"

definition path_join :: "pystr \<Rightarrow> pystr \<Rightarrow> pystr" where
  "path_join a b =
     (if startswith b [sep] then b
      else if a = [] \<or> endswith a [sep] then a @ b
      else a @ [sep] @ b)"

definition basename :: "pystr \<Rightarrow> pystr" where
  "basename p = rev (takeWhile (\<lambda>c. c \<noteq> sep) (rev p))"

section \<open>The checks\<close>

subsection \<open>\<^verbatim>\<open>check_project_structure\<close>\<close>

definition required_files :: "pystr list" where
  "required_files = [str ''package.json'', str ''tsconfig.json'', str ''README.md'']"

definition required_dirs :: "pystr list" where
  "required_dirs = [str ''src'', str ''test'', str ''dist'']"

text \<open>
  Each of the two loops: for every name of the list whose path under the project root
  does not exist, append a violation whose message is the given prefix and the name.
\<close>

fun structure_loop ::
  "env \<Rightarrow> pystr \<Rightarrow> pystr list \<Rightarrow> TypeScriptConventionChecker \<Rightarrow> TypeScriptConventionChecker" where
  "structure_loop E what [] c = c"
| "structure_loop E what (name # names) c =
     structure_loop E what names
       (if \<not> path_exists E (path_join (project_path c) name)
        then append_violation c
          \<lparr>file_path = project_path c, line_number = 0,
           rule = str ''project_structure'', message = what @ name\<rparr>
        else c)"

definition check_project_structure ::
  "env \<Rightarrow> TypeScriptConventionChecker \<Rightarrow> TypeScriptConventionChecker" where
  "check_project_structure E c =
     structure_loop E (str ''Missing required directory: '') required_dirs
       (structure_loop E (str ''Missing required file: '') required_files c)"

subsection \<open>\<^verbatim>\<open>check_file_naming\<close>\<close>

definition file_extensions :: "pystr list" where
  "file_extensions = [str ''.ts'', str ''.tsx'', str ''.test.ts'', str ''.spec.ts'']"

definition check_file_naming ::
  "TypeScriptConventionChecker \<Rightarrow> pystr \<Rightarrow> TypeScriptConventionChecker" where
  "check_file_naming c fp =
     (let filename = basename fp;
          c1 = (if \<not> list_ex (endswith filename) file_extensions
                then append_violation c
                  \<lparr>file_path = fp, line_number = 0, rule = str ''file_naming'',
                   message = str ''Invalid file extension: '' @ filename\<rparr>
                else c);
          name_without_ext = takeWhile (\<lambda>ch. ch \<noteq> cp CHR ''.'') filename
      in if \<not> (re_match camel_case_pattern name_without_ext \<or>
                re_match kebab_case_pattern name_without_ext)
         then append_violation c1
           \<lparr>file_path = fp, line_number = 0, rule = str ''file_naming'',
            message = str ''File name should be camelCase or kebab-case: '' @ filename\<rparr>
         else c1)"

subsection \<open>\<^verbatim>\<open>check_line_length\<close>\<close>

fun line_length_loop ::
  "ucd \<Rightarrow> pystr \<Rightarrow> int \<Rightarrow> (nat \<times> pystr) list \<Rightarrow> TypeScriptConventionChecker \<Rightarrow>
   TypeScriptConventionChecker" where
  "line_length_loop U fp max_length [] c = c"
| "line_length_loop U fp max_length ((line_num, line) # rest) c =
     line_length_loop U fp max_length rest
       (if int (length (rstrip U line)) > max_length
        then append_violation c
          \<lparr>file_path = fp, line_number = int line_num, rule = str ''line_length'',
           message = str ''Line exceeds '' @ str_int max_length @ str '' characters''\<rparr>
        else c)"

definition check_line_length ::
  "env \<Rightarrow> TypeScriptConventionChecker \<Rightarrow> pystr \<Rightarrow> int \<Rightarrow>
   py_error + TypeScriptConventionChecker" where
  "check_line_length E c fp max_length =
     (case open_read E fp of
        Inl e \<Rightarrow> Inl e
      | Inr content \<Rightarrow>
          Inr (line_length_loop (unicode E) fp max_length
                 (enumerate 1 (readlines content)) c))"

subsection \<open>\<^verbatim>\<open>check_naming_conventions\<close>\<close>

text \<open>\<^verbatim>\<open>content[:start].count('\n') + 1\<close>\<close>

definition line_of :: "pystr \<Rightarrow> nat \<Rightarrow> int" where
  "line_of content start = int (count_list (take start content) newline) + 1"

text \<open>\<^verbatim>\<open>match.group(1)\<close>: the piece of the subject between the two recorded positions.\<close>

definition group1 :: "pystr \<Rightarrow> nat list \<Rightarrow> pystr" where
  "group1 content ms =
     (case ms of [a, b] \<Rightarrow> take (b - a) (drop a content) | _ \<Rightarrow> [])"

fun naming_loop ::
  "pystr \<Rightarrow> pystr \<Rightarrow> pystr \<Rightarrow> (nat \<times> nat \<times> nat list) list \<Rightarrow>
   TypeScriptConventionChecker \<Rightarrow> TypeScriptConventionChecker" where
  "naming_loop fp content what [] c = c"
| "naming_loop fp content what ((start, e, ms) # rest) c =
     naming_loop fp content what rest
       (append_violation c
          \<lparr>file_path = fp, line_number = line_of content start,
           rule = str ''naming_convention'', message = what @ group1 content ms\<rparr>)"

definition check_naming_conventions ::
  "env \<Rightarrow> TypeScriptConventionChecker \<Rightarrow> pystr \<Rightarrow> py_error + TypeScriptConventionChecker" where
  "check_naming_conventions E c fp =
     (case open_read E fp of
        Inl e \<Rightarrow> Inl e
      | Inr content \<Rightarrow>
          Inr (naming_loop fp content (str ''Interface name should be PascalCase with I prefix: '')
                 (finditer (interface_pattern (unicode E)) content)
                 (naming_loop fp content (str ''Class name should be PascalCase: '')
                    (finditer (class_pattern (unicode E)) content) c)))"

subsection \<open>\<^verbatim>\<open>check_imports\<close>\<close>

text \<open>
  The list \<^verbatim>\<open>import_lines\<close> and \<^verbatim>\<open>current_section\<close> of the source are written and never
  read; they are left out.
\<close>

fun imports_loop ::
  "ucd \<Rightarrow> pystr \<Rightarrow> (nat \<times> pystr) list \<Rightarrow> TypeScriptConventionChecker \<Rightarrow>
   TypeScriptConventionChecker" where
  "imports_loop U fp [] c = c"
| "imports_loop U fp ((line_num, line) # rest) c =
     imports_loop U fp rest
       (if startswith (strip U line) (str ''import'') \<and> py_in (str ''..'') line
        then append_violation c
          \<lparr>file_path = fp, line_number = int line_num, rule = str ''imports'',
           message = str ''Avoid using parent directory imports (..)''\<rparr>
        else c)"

definition check_imports ::
  "env \<Rightarrow> TypeScriptConventionChecker \<Rightarrow> pystr \<Rightarrow> py_error + TypeScriptConventionChecker" where
  "check_imports E c fp =
     (case open_read E fp of
        Inl e \<Rightarrow> Inl e
      | Inr s \<Rightarrow> Inr (imports_loop (unicode E) fp (enumerate 1 (readlines s)) c))"

subsection \<open>\<^verbatim>\<open>check_comments_documentation\<close>\<close>

text \<open>\<^verbatim>\<open>xs[lo:hi]\<close> for indices that are not negative.\<close>

definition slice :: "'a list \<Rightarrow> nat \<Rightarrow> nat \<Rightarrow> 'a list" where
  "slice xs lo hi = take (hi - lo) (drop lo xs)"

definition todo_violation :: "pystr \<Rightarrow> nat \<Rightarrow> ConventionViolation" where
  "todo_violation fp line_num =
     \<lparr>file_path = fp, line_number = int line_num, rule = str ''documentation'',
      message = str ''TODO comment should have an assignee (@username)''\<rparr>"

definition jsdoc_violation :: "pystr \<Rightarrow> nat \<Rightarrow> ConventionViolation" where
  "jsdoc_violation fp line_num =
     \<lparr>file_path = fp, line_number = int line_num, rule = str ''documentation'',
      message = str ''Missing JSDoc comment for function''\<rparr>"

text \<open>The two tests of the loop body, and the body: \<^verbatim>\<open>max(0, line_num - 4)\<close> is \<open>line_num - 4\<close> on \<open>nat\<close>.\<close>

definition todo_without_assignee :: "ucd \<Rightarrow> pystr \<Rightarrow> bool" where
  "todo_without_assignee U line =
     (py_in (str ''TODO'') line \<and> \<not> re_search (todo_pattern U) line)"

definition is_function_line :: "ucd \<Rightarrow> pystr \<Rightarrow> bool" where
  "is_function_line U line =
     (re_match (function_pattern U) line \<or> re_match (const_function_pattern U) line)"

definition documentation_step ::
  "ucd \<Rightarrow> pystr \<Rightarrow> pystr list \<Rightarrow> nat \<times> pystr \<Rightarrow> TypeScriptConventionChecker \<Rightarrow>
   TypeScriptConventionChecker" where
  "documentation_step U fp content = (\<lambda>(line_num, line) c.
     (let c1 = (if todo_without_assignee U line
                then append_violation c (todo_violation fp line_num) else c)
      in if is_function_line U line
         then (if line_num > 1 \<and>
                  \<not> list_ex (py_in (str ''/**'')) (slice content (line_num - 4) (line_num - 1))
               then append_violation c1 (jsdoc_violation fp line_num) else c1)
         else c1))"

fun documentation_loop ::
  "ucd \<Rightarrow> pystr \<Rightarrow> pystr list \<Rightarrow> (nat \<times> pystr) list \<Rightarrow> TypeScriptConventionChecker \<Rightarrow>
   TypeScriptConventionChecker" where
  "documentation_loop U fp content [] c = c"
| "documentation_loop U fp content (x # rest) c =
     documentation_loop U fp content rest (documentation_step U fp content x c)"

text \<open>What one pass of the loop body appends, as a list.\<close>

definition step_violations ::
  "ucd \<Rightarrow> pystr \<Rightarrow> pystr list \<Rightarrow> nat \<times> pystr \<Rightarrow> ConventionViolation list" where
  "step_violations U fp content = (\<lambda>(line_num, line).
     (if todo_without_assignee U line then [todo_violation fp line_num] else []) @
     (if is_function_line U line \<and> line_num > 1 \<and>
         \<not> list_ex (py_in (str ''/**'')) (slice content (line_num - 4) (line_num - 1))
      then [jsdoc_violation fp line_num] else []))"

definition check_comments_documentation ::
  "env \<Rightarrow> TypeScriptConventionChecker \<Rightarrow> pystr \<Rightarrow> py_error + TypeScriptConventionChecker" where
  "check_comments_documentation E c fp =
     (case open_read E fp of
        Inl e \<Rightarrow> Inl e
      | Inr s \<Rightarrow>
          Inr (documentation_loop (unicode E) fp (readlines s)
                 (enumerate 1 (readlines s)) c))"

subsection \<open>\<^verbatim>\<open>run_eslint_check\<close>\<close>

text \<open>Sequencing: an exception of the first step leaves the method.\<close>

definition then_do :: "'e + 'a \<Rightarrow> ('a \<Rightarrow> 'e + 'b) \<Rightarrow> 'e + 'b" where
  "then_do r f = (case r of Inl e \<Rightarrow> Inl e | Inr x \<Rightarrow> f x)"

text \<open>
  \<^verbatim>\<open>x[key]\<close>, \<^verbatim>\<open>x.get(key, default)\<close> and iteration on a value of \<^verbatim>\<open>json.loads\<close>: subscripting
  with a string works on a dict only, \<^verbatim>\<open>get\<close> is a method of a dict only, and iterating
  a dict gives its keys, iterating a string its characters.
\<close>

definition subscript :: "json \<Rightarrow> pystr \<Rightarrow> py_error + json" where
  "subscript x key =
     (case x of
        JObj kvs \<Rightarrow> (case map_of kvs key of None \<Rightarrow> Inl KeyError | Some v \<Rightarrow> Inr v)
      | _ \<Rightarrow> Inl TypeError)"

definition dict_get :: "json \<Rightarrow> pystr \<Rightarrow> json \<Rightarrow> py_error + json" where
  "dict_get x key dflt =
     (case x of
        JObj kvs \<Rightarrow> Inr (case map_of kvs key of None \<Rightarrow> dflt | Some v \<Rightarrow> v)
      | _ \<Rightarrow> Inl AttributeError)"

definition py_iter :: "json \<Rightarrow> py_error + json list" where
  "py_iter x =
     (case x of
        JArr xs \<Rightarrow> Inr xs
      | JObj kvs \<Rightarrow> Inr (map (\<lambda>kv. JStr (fst kv)) kvs)
      | JStr s \<Rightarrow> Inr (map (\<lambda>ch. JStr [ch]) s)
      | _ \<Rightarrow> Inl TypeError)"

definition eslint_violation :: "json \<Rightarrow> json \<Rightarrow> json \<Rightarrow> py_error + ConventionViolation" where
  "eslint_violation fp ln msg =
     (case (fp, ln, msg) of
        (JStr f, JInt n, JStr m) \<Rightarrow>
          Inr \<lparr>file_path = f, line_number = n, rule = str ''eslint'', message = m\<rparr>
      | _ \<Rightarrow> Inl Unmodelled)"

fun messages_loop ::
  "json \<Rightarrow> json list \<Rightarrow> TypeScriptConventionChecker \<Rightarrow> py_error + TypeScriptConventionChecker" where
  "messages_loop file_result [] c = Inr c"
| "messages_loop file_result (m # ms) c =
     then_do (subscript file_result (str ''filePath'')) (\<lambda>fp.
     then_do (dict_get m (str ''line'') (JInt 0)) (\<lambda>ln.
     then_do (subscript m (str ''message'')) (\<lambda>msg.
     then_do (eslint_violation fp ln msg) (\<lambda>v.
     messages_loop file_result ms (append_violation c v)))))"

fun results_loop ::
  "json list \<Rightarrow> TypeScriptConventionChecker \<Rightarrow> py_error + TypeScriptConventionChecker" where
  "results_loop [] c = Inr c"
| "results_loop (file_result # rest) c =
     then_do (subscript file_result (str ''messages'')) (\<lambda>msgs.
     then_do (py_iter msgs) (\<lambda>ms.
     then_do (messages_loop file_result ms c) (results_loop rest)))"

text \<open>
  The \<^verbatim>\<open>try\<close> has two handlers, for \<^verbatim>\<open>subprocess.CalledProcessError\<close> and for
  \<^verbatim>\<open>json.JSONDecodeError\<close>; both log and return. Every other exception leaves the method.
\<close>

definition run_eslint_check ::
  "env \<Rightarrow> TypeScriptConventionChecker \<Rightarrow> py_error + TypeScriptConventionChecker" where
  "run_eslint_check E c =
     (case subprocess_run E (project_path c) of
        Raises e \<Rightarrow> if e = CalledProcessError then Inr c else Inl e
      | CompletedProcess returncode stdout \<Rightarrow>
          if returncode \<noteq> 0
          then (case json_loads E stdout of
                  None \<Rightarrow> Inr c
                | Some eslint_results \<Rightarrow>
                    then_do (py_iter eslint_results) (\<lambda>rs. results_loop rs c))
          else Inr c)"

subsection \<open>\<^verbatim>\<open>check_all\<close>\<close>

text \<open>The five checks of one file, in the order of the source.\<close>

definition check_file ::
  "env \<Rightarrow> TypeScriptConventionChecker \<Rightarrow> pystr \<Rightarrow> py_error + TypeScriptConventionChecker" where
  "check_file E c fp =
     then_do (check_line_length E (check_file_naming c fp) fp 100) (\<lambda>c1.
     then_do (check_naming_conventions E c1 fp) (\<lambda>c2.
     then_do (check_imports E c2 fp) (\<lambda>c3.
     check_comments_documentation E c3 fp)))"

definition is_ts_file :: "pystr \<Rightarrow> bool" where
  "is_ts_file file = (endswith file (str ''.ts'') \<or> endswith file (str ''.tsx''))"

fun files_loop ::
  "env \<Rightarrow> pystr \<Rightarrow> pystr list \<Rightarrow> TypeScriptConventionChecker \<Rightarrow>
   py_error + TypeScriptConventionChecker" where
  "files_loop E root [] c = Inr c"
| "files_loop E root (file # files) c =
     (if is_ts_file file
      then then_do (check_file E c (path_join root file)) (files_loop E root files)
      else files_loop E root files c)"

fun walk_loop ::
  "env \<Rightarrow> (pystr \<times> pystr list \<times> pystr list) list \<Rightarrow> TypeScriptConventionChecker \<Rightarrow>
   py_error + TypeScriptConventionChecker" where
  "walk_loop E [] c = Inr c"
| "walk_loop E ((root, dirs, files) # rest) c =
     then_do (files_loop E root files c) (walk_loop E rest)"

text \<open>
  \<^verbatim>\<open>check_all\<close> returns \<^verbatim>\<open>self.violations\<close>: the list returned is \<open>violations\<close> of the
  checker that the model returns.
\<close>

definition check_all ::
  "env \<Rightarrow> TypeScriptConventionChecker \<Rightarrow> py_error + TypeScriptConventionChecker" where
  "check_all E c =
     then_do (walk_loop E (walk E (project_path c)) (check_project_structure E c))
       (run_eslint_check E)"

subsection \<open>\<^verbatim>\<open>os.path.relpath\<close>\<close>










subsection \<open>\<^verbatim>\<open>generate_report\<close>\<close>








section \<open>Notions used in the statements\<close>

text \<open>
  The source files a run discovers, in the order of the walk: the files of every
  visited directory whose name ends in \<^verbatim>\<open>.ts\<close> or \<^verbatim>\<open>.tsx\<close>, joined to the directory.
\<close>

definition discovered :: "env \<Rightarrow> pystr \<Rightarrow> pystr list" where
  "discovered E root =
     concat (map (\<lambda>(dir, dirs, files). map (path_join dir) (filter is_ts_file files))
               (walk E root))"

text \<open>A violation of the extension test of \<^verbatim>\<open>check_file_naming\<close>.\<close>

definition invalid_extension_violation :: "ConventionViolation \<Rightarrow> bool" where
  "invalid_extension_violation v =
     (rule v = str ''file_naming'' \<and> startswith (message v) (str ''Invalid file extension''))"

text \<open>
  Two states of the world look the same to a run on the project root when they agree on
  what the run reads: the existence of the required files and directories, the source
  files that the walk discovers, the content (or the error) of each of them, the Unicode
  database, the outcome of the lint command and what \<^verbatim>\<open>json.loads\<close> makes of an output.
  Other files may differ (the report that a run of \<^verbatim>\<open>main\<close> writes, for one).
\<close>

definition same_tree :: "env \<Rightarrow> env \<Rightarrow> pystr \<Rightarrow> bool" where
  "same_tree E E' root =
     (list_all (\<lambda>name. path_exists E (path_join root name) = path_exists E' (path_join root name))
        (required_files @ required_dirs) \<and>
      discovered E root = discovered E' root \<and>
      list_all (\<lambda>fp. open_read E fp = open_read E' fp) (discovered E root) \<and>
      unicode E = unicode E' \<and>
      subprocess_run E root = subprocess_run E' root \<and>
      json_loads E = json_loads E')"

text \<open>The checks of a list of files, one file after the other.\<close>

fun check_files ::
  "env \<Rightarrow> pystr list \<Rightarrow> TypeScriptConventionChecker \<Rightarrow> py_error + TypeScriptConventionChecker" where
  "check_files E [] c = Inr c"
| "check_files E (fp # fps) c = then_do (check_file E c fp) (check_files E fps)"

text \<open>No violation of the checker is one of the extension test.\<close>

definition no_ext :: "TypeScriptConventionChecker \<Rightarrow> bool" where
  "no_ext c = (\<forall>v\<in>set (violations c). \<not> invalid_extension_violation v)"

text \<open>The elements of a list in the order of their first occurrence.\<close>

function first_occurrences :: "'a list \<Rightarrow> 'a list" where
  "first_occurrences [] = []"
| "first_occurrences (x # xs) = x # first_occurrences (filter (\<lambda>y. y \<noteq> x) xs)"
  by pat_completeness auto
termination
  by (relation "measure length") (auto simp: less_Suc_eq_le)




section \<open>Concrete inputs\<close>

text \<open>
  A Unicode database restricted to ASCII, and a project directory \<^verbatim>\<open>/proj\<close> that is
  empty: nothing exists in it, the walk visits the root and finds no file, and the lint
  command exits with status 0.
\<close>

definition ascii_ucd :: ucd where
  "ascii_ucd = \<lparr>uspace = (\<lambda>c. False), ualnum = (\<lambda>c. False)\<rparr>"

definition empty_project :: env where
  "empty_project =
     \<lparr>path_exists = (\<lambda>p. False),
      walk = (\<lambda>p. [(p, [], [])]),
      open_read = (\<lambda>p. Inl OSError),
      subprocess_run = (\<lambda>cwd. CompletedProcess 0 []),
      json_loads = (\<lambda>s. None),
      unicode = ascii_ucd,
      getcwd = str ''/home/u''\<rparr>"

text \<open>
  A project with one source file \<^verbatim>\<open>/proj/long.ts\<close> of three lines: 100 characters; 101
  characters followed by three spaces; \<^verbatim>\<open>ok\<close> without a final newline.
\<close>

definition long_text :: pystr where
  "long_text =
     replicate 100 (cp CHR ''a'') @ [newline] @
     replicate 101 (cp CHR ''b'') @ str ''   '' @ [newline] @
     str ''ok''"

definition long_project :: env where
  "long_project =
     empty_project
       \<lparr>walk := (\<lambda>p. [(p, [], [str ''long.ts''])]),
        open_read := (\<lambda>p. if p = str ''/proj/long.ts'' then Inr long_text else Inl OSError)\<rparr>"

text \<open>
  A project with the source file \<^verbatim>\<open>/proj/todo.ts\<close>: a line with a bare TODO and an
  assigned one, a line with an assigned TODO, a line with a bare TODO.
\<close>

definition todo_text :: pystr where
  "todo_text =
     str ''// TODO tidy, TODO(@bob) review'' @ [newline] @
     str ''// TODO(@alice) ship'' @ [newline] @
     str ''// TODO later'' @ [newline]"

definition todo_project :: env where
  "todo_project =
     empty_project
       \<lparr>walk := (\<lambda>p. [(p, [], [str ''todo.ts''])]),
        open_read := (\<lambda>p. if p = str ''/proj/todo.ts'' then Inr todo_text else Inl OSError)\<rparr>"

text \<open>
  A project with the source file \<^verbatim>\<open>/proj/fun.ts\<close>: a function on line 1; a doc comment
  on line 2; a function on line 5, three lines below the comment; functions on lines 6
  and 7, with no comment in the three lines above.
\<close>

definition fun_text :: pystr where
  "fun_text =
     str ''function first() {}'' @ [newline] @
     str ''/** documented */'' @ [newline] @
     [newline] @
     [newline] @
     str ''function second() {}'' @ [newline] @
     str ''  function third() {}'' @ [newline] @
     str ''const fourth = function () {}'' @ [newline]"

definition fun_project :: env where
  "fun_project =
     empty_project
       \<lparr>walk := (\<lambda>p. [(p, [], [str ''fun.ts''])]),
        open_read := (\<lambda>p. if p = str ''/proj/fun.ts'' then Inr fun_text else Inl OSError)\<rparr>"

text \<open>
  A project \<^verbatim>\<open>/proj\<close> with a readme and a directory \<^verbatim>\<open>src\<close> that holds two source files,
  \<^verbatim>\<open>MyClass.ts\<close> and \<^verbatim>\<open>todo.ts\<close>; the lint command exits with status 1 and reports one
  message.
\<close>

definition myclass_text :: pystr where
  "myclass_text =
     str ''import x from \"../x\"'' @ [newline] @
     [newline] @
     str ''class myBadName {}'' @ [newline] @
     str ''interface IGood {}'' @ [newline] @
     replicate 150 (cp CHR ''a'') @ [newline]"

definition lint_output :: json where
  "lint_output =
     JArr [JObj [(str ''filePath'', JStr (str ''/proj/src/todo.ts'')),
                 (str ''messages'',
                  JArr [JObj [(str ''line'', JInt 2),
                              (str ''message'', JStr (str ''Unexpected comment''))]])]]"

definition sample_project :: env where
  "sample_project =
     \<lparr>path_exists = (\<lambda>p. p = str ''/proj/README.md'' \<or> p = str ''/proj/src''),
      walk = (\<lambda>p. [(p, [str ''src''], [str ''README.md'', str ''notes.txt'']),
                     (path_join p (str ''src''), [], [str ''MyClass.ts'', str ''todo.ts''])]),
      open_read = (\<lambda>p. if p = str ''/proj/src/MyClass.ts'' then Inr myclass_text
                          else if p = str ''/proj/src/todo.ts'' then Inr todo_text
                          else Inl OSError),
      subprocess_run = (\<lambda>cwd. CompletedProcess 1 (str ''[...]'')),
      json_loads = (\<lambda>s. if s = str ''[...]'' then Some lint_output else None),
      unicode = ascii_ucd,
      getcwd = str ''/home/u''\<rparr>"

definition violation :: "string \<Rightarrow> int \<Rightarrow> string \<Rightarrow> string \<Rightarrow> ConventionViolation" where
  "violation f n r m = \<lparr>file_path = str f, line_number = n, rule = str r, message = str m\<rparr>"

text \<open>What a run on the sample project finds.\<close>

definition sample_violations :: "ConventionViolation list" where
  "sample_violations =
     [violation ''/proj'' 0 ''project_structure'' ''Missing required file: package.json'',
      violation ''/proj'' 0 ''project_structure'' ''Missing required file: tsconfig.json'',
      violation ''/proj'' 0 ''project_structure'' ''Missing required directory: test'',
      violation ''/proj'' 0 ''project_structure'' ''Missing required directory: dist'',
      violation ''/proj/src/MyClass.ts'' 0 ''file_naming''
        ''File name should be camelCase or kebab-case: MyClass.ts'',
      violation ''/proj/src/MyClass.ts'' 5 ''line_length'' ''Line exceeds 100 characters'',
      violation ''/proj/src/MyClass.ts'' 3 ''naming_convention''
        ''Class name should be PascalCase: myBadName'',
      violation ''/proj/src/MyClass.ts'' 4 ''naming_convention''
        ''Interface name should be PascalCase with I prefix: IGood'',
      violation ''/proj/src/MyClass.ts'' 1 ''imports''
        ''Avoid using parent directory imports (..)'',
      violation ''/proj/src/todo.ts'' 3 ''documentation''
        ''TODO comment should have an assignee (@username)'',
      violation ''/proj/src/todo.ts'' 2 ''eslint'' ''Unexpected comment'']"

text \<open>
  The sample project after a run of \<^verbatim>\<open>main\<close> in it: the report file is there, and the
  current directory is another one.
\<close>

definition sample_project_later :: env where
  "sample_project_later =
     sample_project
       \<lparr>path_exists := (\<lambda>p. p = str ''/proj/README.md'' \<or> p = str ''/proj/src'' \<or>
                              p = str ''/proj/convention_report.md''),
        walk := (\<lambda>p. [(p, [str ''src''],
                         [str ''README.md'', str ''convention_report.md'', str ''notes.txt'']),
                       (path_join p (str ''src''), [], [str ''MyClass.ts'', str ''todo.ts''])]),
        getcwd := str ''/proj''\<rparr>"

text \<open>The sample project with a second source file that is not valid UTF-8.\<close>

definition undecodable_project :: env where
  "undecodable_project =
     sample_project
       \<lparr>open_read := (\<lambda>p. if p = str ''/proj/src/MyClass.ts'' then Inr myclass_text
                            else Inl UnicodeDecodeError)\<rparr>"


text \<open>
  A project with the source file \<^verbatim>\<open>/proj/shapes.ts\<close>, which declares a class and an
  interface whose names follow the conventions.
\<close>

definition shapes_text :: pystr where
  "shapes_text =
     str ''class Circle {}'' @ [newline] @
     str ''interface IShape {}'' @ [newline]"

definition shapes_project :: env where
  "shapes_project =
     empty_project
       \<lparr>walk := (\<lambda>p. [(p, [], [str ''shapes.ts''])]),
        open_read := (\<lambda>p. if p = str ''/proj/shapes.ts'' then Inr shapes_text else Inl OSError)\<rparr>"

text \<open>
  The empty project on a machine where the lint command cannot be started:
  \<^verbatim>\<open>subprocess.run\<close> raises \<^verbatim>\<open>FileNotFoundError\<close>, a subclass of \<^verbatim>\<open>OSError\<close>.
\<close>

definition no_npx_project :: env where
  "no_npx_project = empty_project\<lparr>subprocess_run := (\<lambda>cwd. Raises OSError)\<rparr>"

section \<open>Basic facts\<close>

text \<open>
  The lines of a text are its pieces: joined again they give the text, none is empty,
  and a newline is the last character of its line.
\<close>

lemma concat_readlines: "concat (readlines s) = s"
  by (induction s) (auto split: list.splits)

lemma readlines_nonempty: "[] \<notin> set (readlines s)"
  by (induction s) (auto split: list.splits)

lemma readlines_newline_last:
  "l \<in> set (readlines s) \<Longrightarrow> newline \<notin> set (butlast l)"
proof (induction s arbitrary: l)
  case Nil
  then show ?case by simp
next
  case (Cons c cs)
  show ?case
  proof (cases "c = newline")
    case True
    with Cons show ?thesis by auto
  next
    case False
    show ?thesis
    proof (cases "readlines cs")
      case Nil
      with Cons.prems False show ?thesis by simp
    next
      case (Cons l' ls)
      with Cons.prems False consider "l = c # l'" | "l \<in> set ls" by auto
      then show ?thesis
      proof cases
        case 1
        have "l' \<noteq> []" using readlines_nonempty [of cs] Cons by auto
        moreover have "newline \<notin> set (butlast l')" using Cons.IH [of l'] Cons by simp
        ultimately show ?thesis using 1 False by simp
      next
        case 2
        then show ?thesis using Cons.IH [of l] Cons by simp
      qed
    qed
  qed
qed

text \<open>The first occurrences of a list are its elements, each once.\<close>

lemma set_first_occurrences [simp]: "set (first_occurrences xs) = set xs"
  by (induction xs rule: first_occurrences.induct) auto

lemma distinct_first_occurrences: "distinct (first_occurrences xs)"
  by (induction xs rule: first_occurrences.induct) auto

lemma first_occurrences_distinct: "distinct xs \<Longrightarrow> first_occurrences xs = xs"
  by (induction xs rule: first_occurrences.induct) (auto simp: filter_id_conv)

section \<open>Properties\<close>

subsection \<open>The violation list only grows\<close>

lemma project_path_append_violation [simp]:
  "project_path (append_violation c v) = project_path c"
  by (simp add: append_violation_def)

lemma violations_append_violation [simp]:
  "violations (append_violation c v) = violations c @ [v]"
  by (simp add: append_violation_def)

lemma structure_loop_path [simp]:
  "project_path (structure_loop E what names c) = project_path c"
  by (induction names arbitrary: c) simp_all

lemma structure_loop_violations:
  "violations (structure_loop E what names c) =
     violations c @
     map (\<lambda>name. \<lparr>file_path = project_path c, line_number = 0,
                   rule = str ''project_structure'', message = what @ name\<rparr>)
       (filter (\<lambda>name. \<not> path_exists E (path_join (project_path c) name)) names)"
  by (induction names arbitrary: c) simp_all

subsection \<open>Project structure\<close>

text \<open>
  C5. The project-structure check appends one violation per missing required file and
  then one per missing required directory, in the order of the two lists, each with rule
  \<^verbatim>\<open>project_structure\<close>, line number 0 and the project root as file path. There are
  three required files and three required directories, all different; when none of
  them exists, exactly six violations are appended.
\<close>

theorem check_project_structure_one_per_missing:
  "violations (check_project_structure E c) =
     violations c @
     map (\<lambda>name. \<lparr>file_path = project_path c, line_number = 0,
                   rule = str ''project_structure'',
                   message = str ''Missing required file: '' @ name\<rparr>)
       (filter (\<lambda>name. \<not> path_exists E (path_join (project_path c) name)) required_files) @
     map (\<lambda>name. \<lparr>file_path = project_path c, line_number = 0,
                   rule = str ''project_structure'',
                   message = str ''Missing required directory: '' @ name\<rparr>)
       (filter (\<lambda>name. \<not> path_exists E (path_join (project_path c) name)) required_dirs)
   \<and> length required_files = 3 \<and> length required_dirs = 3
   \<and> distinct (required_files @ required_dirs)
   \<and> ((\<forall>name \<in> set (required_files @ required_dirs).
          \<not> path_exists E (path_join (project_path c) name)) \<longrightarrow>
        length (violations (check_project_structure E c)) = length (violations c) + 6)"
  unfolding check_project_structure_def
  by (simp add: structure_loop_violations) (simp add: required_files_def required_dirs_def str_def)

text \<open>The empty project \<^verbatim>\<open>/proj\<close>, checked from a fresh checker: the six violations.\<close>

theorem check_project_structure_witness:
  "violations (check_project_structure empty_project (init (str ''/proj''))) =
     map (\<lambda>m. \<lparr>file_path = str ''/proj'', line_number = 0,
                rule = str ''project_structure'', message = str m\<rparr>)
       [''Missing required file: package.json'', ''Missing required file: tsconfig.json'',
        ''Missing required file: README.md'', ''Missing required directory: src'',
        ''Missing required directory: test'', ''Missing required directory: dist'']
   \<and> length (violations (check_project_structure empty_project (init (str ''/proj'')))) = 6"
  using check_project_structure_one_per_missing [of empty_project "init (str ''/proj'')"]
  by (simp add: empty_project_def init_def required_files_def required_dirs_def str_def)

subsection \<open>Line length\<close>

lemma enumerate_filter_map:
  "map (\<lambda>(n, l). f n) (filter (\<lambda>(n, l). P l) (enumerate k ls)) =
   map f (filter (\<lambda>n. P (ls ! (n - k))) [k ..< k + length ls])"
proof (induction ls arbitrary: k)
  case Nil
  then show ?case by simp
next
  case (Cons l ls)
  have shift: "filter (\<lambda>n. P ((l # ls) ! (n - k))) [Suc k ..< Suc k + length ls] =
               filter (\<lambda>n. P (ls ! (n - Suc k))) [Suc k ..< Suc k + length ls]"
  proof (rule filter_cong)
    fix n assume "n \<in> set [Suc k ..< Suc k + length ls]"
    then have "n - k = Suc (n - Suc k)" by auto
    then show "P ((l # ls) ! (n - k)) = P (ls ! (n - Suc k))" by simp
  qed simp
  have upt: "[k ..< k + length (l # ls)] = k # [Suc k ..< Suc k + length ls]"
    by (simp add: upt_conv_Cons del: upt_Suc)
  show ?case
    unfolding upt using Cons.IH [of "Suc k"] shift
    by (simp del: upt_Suc)
qed

lemma line_length_loop_path [simp]:
  "project_path (line_length_loop U fp m xs c) = project_path c"
  by (induction xs arbitrary: c) auto

lemma line_length_loop_violations:
  "violations (line_length_loop U fp m xs c) =
     violations c @
     map (\<lambda>(n, l). \<lparr>file_path = fp, line_number = int n, rule = str ''line_length'',
                     message = str ''Line exceeds '' @ str_int m @ str '' characters''\<rparr>)
       (filter (\<lambda>(n, l). m < int (length (rstrip U l))) xs)"
  by (induction xs arbitrary: c) auto

text \<open>
  C6. When the file can be read, the line-length check returns normally and appends
  exactly one \<^verbatim>\<open>line_length\<close> violation for each line whose length after stripping
  trailing whitespace is strictly greater than the threshold, at the 1-based number of
  that line and in the order of the lines; a line at or under the threshold adds
  nothing. \<^verbatim>\<open>check_all\<close> calls the check with the threshold 100.
\<close>

theorem check_line_length_exact:
  assumes "open_read E fp = Inr content"
  shows "\<exists>c'. check_line_length E c fp max_length = Inr c' \<and>
           project_path c' = project_path c \<and>
           violations c' =
             violations c @
             map (\<lambda>n. \<lparr>file_path = fp, line_number = int n, rule = str ''line_length'',
                        message = str ''Line exceeds '' @ str_int max_length @
                                  str '' characters''\<rparr>)
               (filter (\<lambda>n. max_length <
                             int (length (rstrip (unicode E) (readlines content ! (n - 1)))))
                  [1 ..< Suc (length (readlines content))])"
proof -
  let ?mk = "\<lambda>n. \<lparr>file_path = fp, line_number = int n, rule = str ''line_length'',
                  message = str ''Line exceeds '' @ str_int max_length @
                            str '' characters''\<rparr>"
  let ?long = "\<lambda>l. max_length < int (length (rstrip (unicode E) l))"
  have "map (\<lambda>(n, l). ?mk n) (filter (\<lambda>(n, l). ?long l) (enumerate 1 (readlines content))) =
        map ?mk (filter (\<lambda>n. ?long (readlines content ! (n - 1)))
                   [1 ..< 1 + length (readlines content)])"
    by (rule enumerate_filter_map)
  then show ?thesis
    using assms
    by (simp add: check_line_length_def line_length_loop_violations del: upt_Suc)
qed

text \<open>
  In \<^verbatim>\<open>/proj/long.ts\<close> only line 2 is longer than 100 characters after stripping: one
  violation, at line 2.
\<close>

theorem check_line_length_witness:
  "open_read long_project (str ''/proj/long.ts'') = Inr long_text \<and>
   check_line_length long_project (init (str ''/proj'')) (str ''/proj/long.ts'') 100 =
     Inr \<lparr>project_path = str ''/proj'',
          violations =
            [\<lparr>file_path = str ''/proj/long.ts'', line_number = 2, rule = str ''line_length'',
              message = str ''Line exceeds 100 characters''\<rparr>]\<rparr>"
proof -
  have readable: "open_read long_project (str ''/proj/long.ts'') = Inr long_text"
    by (simp add: long_project_def empty_project_def)
  have run: "check_line_length long_project (init (str ''/proj'')) (str ''/proj/long.ts'') 100 =
     Inr \<lparr>project_path = str ''/proj'',
          violations =
            [\<lparr>file_path = str ''/proj/long.ts'', line_number = 2, rule = str ''line_length'',
              message = str ''Line exceeds 100 characters''\<rparr>]\<rparr>"
    by code_simp
  show ?thesis
    using check_line_length_exact [OF readable, of "init (str ''/proj'')" 100] readable run
    by simp
qed

subsection \<open>Documentation\<close>

lemma documentation_step_path [simp]:
  "project_path (documentation_step U fp content x c) = project_path c"
  by (cases x) (simp add: documentation_step_def Let_def)

lemma documentation_step_violations:
  "violations (documentation_step U fp content x c) =
     violations c @ step_violations U fp content x"
  by (cases x) (simp add: documentation_step_def step_violations_def Let_def)

lemma documentation_loop_path [simp]:
  "project_path (documentation_loop U fp content xs c) = project_path c"
  by (induction xs arbitrary: c) simp_all

lemma documentation_loop_violations:
  "violations (documentation_loop U fp content xs c) =
     violations c @ concat (map (step_violations U fp content) xs)"
  by (induction xs arbitrary: c) (simp_all add: documentation_step_violations)

lemma count_list_concat_map:
  "count_list (concat (map f xs)) v = sum_list (map (\<lambda>x. count_list (f x) v) xs)"
  by (induction xs) simp_all

lemma sum_enumerate_single:
  "sum_list (map (\<lambda>(k, l). if k = n \<and> Q l then 1 else 0) (enumerate j ls)) =
     (if j \<le> n \<and> n < j + length ls \<and> Q (ls ! (n - j)) then (1::nat) else 0)"
proof (induction ls arbitrary: j)
  case Nil
  then show ?case by simp
next
  case (Cons l ls)
  show ?case
  proof (cases "j = n")
    case True
    then show ?thesis using Cons.IH [of "Suc j"] by simp
  next
    case False
    then have "j \<le> n \<longleftrightarrow> Suc j \<le> n" by auto
    moreover have "Suc j \<le> n \<Longrightarrow> (l # ls) ! (n - j) = ls ! (n - Suc j)"
      by (simp add: Suc_diff_le)
    ultimately show ?thesis using False Cons.IH [of "Suc j"] by auto
  qed
qed

lemma jsdoc_violation_eq [simp]:
  "jsdoc_violation fp k = jsdoc_violation fp n \<longleftrightarrow> k = n"
  by (simp add: jsdoc_violation_def)

lemma todo_violation_eq [simp]:
  "todo_violation fp k = todo_violation fp n \<longleftrightarrow> k = n"
  by (simp add: todo_violation_def)

lemma todo_neq_jsdoc [simp]:
  "todo_violation fp k \<noteq> jsdoc_violation fp n" "jsdoc_violation fp n \<noteq> todo_violation fp k"
  by (simp_all add: todo_violation_def jsdoc_violation_def str_def)

lemma slice_ex:
  assumes "n \<le> length xs"
  shows "list_ex P (slice xs (n - 4) (n - 1)) \<longleftrightarrow>
         (\<exists>k. 1 \<le> k \<and> k < n \<and> n \<le> k + 3 \<and> P (xs ! (k - 1)))"
proof
  assume "list_ex P (slice xs (n - 4) (n - 1))"
  then obtain i where i: "i < length (slice xs (n - 4) (n - 1))" "P (slice xs (n - 4) (n - 1) ! i)"
    by (auto simp: list_ex_iff in_set_conv_nth)
  from i(1) have bound: "i < (n - 1) - (n - 4)" "n - 4 + i < length xs"
    by (auto simp: slice_def)
  from i(2) bound have "P (xs ! (n - 4 + i))"
    by (simp add: slice_def)
  with bound show "\<exists>k. 1 \<le> k \<and> k < n \<and> n \<le> k + 3 \<and> P (xs ! (k - 1))"
    by (intro exI [of _ "Suc (n - 4 + i)"]) auto
next
  assume "\<exists>k. 1 \<le> k \<and> k < n \<and> n \<le> k + 3 \<and> P (xs ! (k - 1))"
  then obtain k where k: "1 \<le> k" "k < n" "n \<le> k + 3" "P (xs ! (k - 1))" by blast
  define i where "i = k - 1 - (n - 4)"
  from k assms have "i < length (slice xs (n - 4) (n - 1))" "slice xs (n - 4) (n - 1) ! i = xs ! (k - 1)"
    by (auto simp: slice_def i_def)
  with k(4) show "list_ex P (slice xs (n - 4) (n - 1))"
    unfolding list_ex_iff by (metis nth_mem)
qed

lemma count_jsdoc_step:
  "count_list (step_violations U fp content (k, l)) (jsdoc_violation fp n) =
     (if k = n \<and> (is_function_line U l \<and> 1 < n \<and>
          \<not> list_ex (py_in (str ''/**'')) (slice content (n - 4) (n - 1))) then 1 else 0)"
  by (auto simp: step_violations_def)

lemma count_todo_step:
  "count_list (step_violations U fp content (k, l)) (todo_violation fp n) =
     (if k = n \<and> todo_without_assignee U l then 1 else 0)"
  by (auto simp: step_violations_def)


lemma check_comments_documentation_new:
  assumes "open_read E fp = Inr content"
  shows "check_comments_documentation E c fp =
           Inr (documentation_loop (unicode E) fp (readlines content)
                  (enumerate 1 (readlines content)) c)"
  using assms by (simp add: check_comments_documentation_def)

lemma count_jsdoc_new:
  "count_list (concat (map (step_violations U fp ls) (enumerate 1 ls))) (jsdoc_violation fp n) =
     (if 1 \<le> n \<and> n \<le> length ls \<and> is_function_line U (ls ! (n - 1)) \<and> 1 < n \<and>
         \<not> (\<exists>k. 1 \<le> k \<and> k < n \<and> n \<le> k + 3 \<and> py_in (str ''/**'') (ls ! (k - 1)))
      then 1 else 0)"
proof -
  let ?Q = "\<lambda>l. is_function_line U l \<and> 1 < n \<and>
              \<not> list_ex (py_in (str ''/**'')) (slice ls (n - 4) (n - 1))"
  have "count_list (concat (map (step_violations U fp ls) (enumerate 1 ls))) (jsdoc_violation fp n) =
        sum_list (map (\<lambda>(k, l). if k = n \<and> ?Q l then 1 else 0) (enumerate 1 ls))"
    unfolding count_list_concat_map
    by (rule arg_cong [where f = sum_list], rule map_cong) (auto simp: count_jsdoc_step)
  also have "\<dots> = (if 1 \<le> n \<and> n < 1 + length ls \<and> ?Q (ls ! (n - 1)) then 1 else 0)"
    by (rule sum_enumerate_single)
  also have "\<dots> = (if 1 \<le> n \<and> n \<le> length ls \<and> is_function_line U (ls ! (n - 1)) \<and> 1 < n \<and>
         \<not> (\<exists>k. 1 \<le> k \<and> k < n \<and> n \<le> k + 3 \<and> py_in (str ''/**'') (ls ! (k - 1)))
      then 1 else 0)"
    using slice_ex [of n ls "py_in (str ''/**'')"] by (cases "n \<le> length ls") auto
  finally show ?thesis .
qed

lemma count_todo_new:
  "count_list (concat (map (step_violations U fp ls) (enumerate 1 ls))) (todo_violation fp n) =
     (if 1 \<le> n \<and> n \<le> length ls \<and> todo_without_assignee U (ls ! (n - 1)) then 1 else 0)"
proof -
  have "count_list (concat (map (step_violations U fp ls) (enumerate 1 ls))) (todo_violation fp n) =
        sum_list (map (\<lambda>(k, l). if k = n \<and> todo_without_assignee U l then 1 else 0)
                    (enumerate 1 ls))"
    unfolding count_list_concat_map
    by (rule arg_cong [where f = sum_list], rule map_cong) (auto simp: count_todo_step)
  also have "\<dots> = (if 1 \<le> n \<and> n < 1 + length ls \<and> todo_without_assignee U (ls ! (n - 1))
                   then 1 else 0)"
    by (rule sum_enumerate_single)
  finally show ?thesis by auto
qed

text \<open>
  C10. When the file can be read, the documentation check returns normally, and among
  the violations it appends the one with the message \<^verbatim>\<open>Missing JSDoc comment for function\<close>
  at line \<open>n\<close> occurs once when line \<open>n\<close> is a line of the file that matches one of the
  two function patterns, \<open>n\<close> is greater than 1, and none of the lines \<open>k\<close> of the file
  with \<open>n - 3 \<le> k < n\<close> contains \<^verbatim>\<open>/**\<close>; otherwise it does not occur. So a function on
  line 1 is never reported.
\<close>

theorem jsdoc_rule:
  assumes "open_read E fp = Inr content"
  shows "\<exists>c' new. check_comments_documentation E c fp = Inr c' \<and>
           violations c' = violations c @ new \<and>
           (\<forall>n. count_list new (jsdoc_violation fp n) =
              (if 1 \<le> n \<and> n \<le> length (readlines content) \<and>
                  is_function_line (unicode E) (readlines content ! (n - 1)) \<and> 1 < n \<and>
                  \<not> (\<exists>k. 1 \<le> k \<and> k < n \<and> n \<le> k + 3 \<and>
                          py_in (str ''/**'') (readlines content ! (k - 1)))
               then 1 else 0))"
  unfolding check_comments_documentation_new [OF assms]
  by (intro exI conjI allI, rule refl, rule documentation_loop_violations, rule count_jsdoc_new)

text \<open>
  In \<^verbatim>\<open>/proj/fun.ts\<close> the functions on lines 1 and 5 are not reported, those on lines
  6 and 7 are.
\<close>

theorem jsdoc_rule_witness:
  "open_read fun_project (str ''/proj/fun.ts'') = Inr fun_text \<and>
   check_comments_documentation fun_project (init (str ''/proj'')) (str ''/proj/fun.ts'') =
     Inr \<lparr>project_path = str ''/proj'',
          violations = [jsdoc_violation (str ''/proj/fun.ts'') 6,
                        jsdoc_violation (str ''/proj/fun.ts'') 7]\<rparr> \<and>
   is_function_line ascii_ucd (readlines fun_text ! 0) \<and>
   is_function_line ascii_ucd (readlines fun_text ! 4)"
proof -
  have readable: "open_read fun_project (str ''/proj/fun.ts'') = Inr fun_text"
    by (simp add: fun_project_def empty_project_def)
  have run: "check_comments_documentation fun_project (init (str ''/proj'')) (str ''/proj/fun.ts'') =
     Inr \<lparr>project_path = str ''/proj'',
          violations = [jsdoc_violation (str ''/proj/fun.ts'') 6,
                        jsdoc_violation (str ''/proj/fun.ts'') 7]\<rparr>"
    by code_simp
  have lines: "is_function_line ascii_ucd (readlines fun_text ! 0)"
    "is_function_line ascii_ucd (readlines fun_text ! 4)"
    by code_simp+
  show ?thesis
    using jsdoc_rule [OF readable, of "init (str ''/proj'')"] readable run lines
    by simp
qed

lemma py_in_iff: "py_in sub s \<longleftrightarrow> (\<exists>a b. s = a @ sub @ b)"
proof (induction s)
  case Nil
  then show ?case by auto
next
  case (Cons c cs)
  show ?case
  proof
    assume "py_in sub (c # cs)"
    then consider "prefix sub (c # cs)" | "py_in sub cs" by auto
    then show "\<exists>a b. c # cs = a @ sub @ b"
    proof cases
      case 1
      then obtain b where "c # cs = sub @ b" by (auto simp: prefix_def)
      then have "c # cs = [] @ sub @ b" by simp
      then show ?thesis by blast
    next
      case 2
      with Cons.IH obtain a b where "cs = a @ sub @ b" by blast
      then have "c # cs = (c # a) @ sub @ b" by simp
      then show ?thesis by blast
    qed
  next
    assume "\<exists>a b. c # cs = a @ sub @ b"
    then obtain a b where ab: "c # cs = a @ sub @ b" by blast
    show "py_in sub (c # cs)"
    proof (cases a)
      case Nil
      with ab have "prefix sub (c # cs)" unfolding prefix_def by auto
      then show ?thesis using py_in.simps(2) [of sub c cs] by blast
    next
      case (Cons x a')
      with ab have "cs = a' @ sub @ b" by simp
      with Cons.IH show ?thesis by auto
    qed
  qed
qed

lemma search_from_append:
  "rmatch p (i + length a) b \<noteq> None \<Longrightarrow> search_from p i (a @ b) \<noteq> None"
proof (induction a arbitrary: i)
  case Nil
  then show ?case by (cases b) (auto split: option.splits)
next
  case (Cons x a)
  from Cons.prems have "search_from p (Suc i) (a @ b) \<noteq> None"
    by (intro Cons.IH) simp
  then show ?case by (auto split: option.splits)
qed

lemma not_space_paren: "\<not> is_space U (cp CHR ''('')"
  by (simp add: is_space_def cp_def)

lemma todo_alice_matches:
  "rmatch (todo_pattern U) j (str ''TODO(@alice)'' @ b) \<noteq> None"
  by (simp add: todo_pattern_def lit_def str_def cp_def is_space_def is_word_def
      is_lower_def is_upper_def is_digit_def)

lemma todo_alice_found:
  assumes "py_in (str ''TODO(@alice)'') line"
  shows "re_search (todo_pattern U) line"
proof -
  from assms obtain a b where "line = a @ str ''TODO(@alice)'' @ b"
    by (auto simp: py_in_iff)
  then show ?thesis
    unfolding re_search_def
    using search_from_append [of "todo_pattern U" 0 a "str ''TODO(@alice)'' @ b"]
      todo_alice_matches [of U "length a" b]
    by simp
qed

text \<open>
  C7, as the code has it: the test is made once per line. When the file can be read,
  the violation with the message \<^verbatim>\<open>TODO comment should have an assignee (@username)\<close> at
  line \<open>n\<close> occurs once among the appended violations when line \<open>n\<close> contains \<^verbatim>\<open>TODO\<close>
  and the pattern \<^verbatim>\<open>TODO\s*\(@\w+\)\<close> is found nowhere in the line; otherwise it does not
  occur. A line that contains \<^verbatim>\<open>TODO(@alice)\<close> has none.
\<close>

theorem todo_rule_per_line:
  assumes "open_read E fp = Inr content"
  shows "\<exists>c' new. check_comments_documentation E c fp = Inr c' \<and>
           violations c' = violations c @ new \<and>
           (\<forall>n. count_list new (todo_violation fp n) =
              (if 1 \<le> n \<and> n \<le> length (readlines content) \<and>
                  py_in (str ''TODO'') (readlines content ! (n - 1)) \<and>
                  \<not> re_search (todo_pattern (unicode E)) (readlines content ! (n - 1))
               then 1 else 0)) \<and>
           (\<forall>n. 1 \<le> n \<and> n \<le> length (readlines content) \<and>
                py_in (str ''TODO(@alice)'') (readlines content ! (n - 1)) \<longrightarrow>
                count_list new (todo_violation fp n) = 0)"
proof -
  let ?new = "concat (map (step_violations (unicode E) fp (readlines content))
                        (enumerate 1 (readlines content)))"
  have count: "count_list ?new (todo_violation fp n) =
              (if 1 \<le> n \<and> n \<le> length (readlines content) \<and>
                  py_in (str ''TODO'') (readlines content ! (n - 1)) \<and>
                  \<not> re_search (todo_pattern (unicode E)) (readlines content ! (n - 1))
               then 1 else 0)" for n
    unfolding count_todo_new todo_without_assignee_def by simp
  have alice: "count_list ?new (todo_violation fp n) = 0"
    if "py_in (str ''TODO(@alice)'') (readlines content ! (n - 1))" for n
    unfolding count using todo_alice_found [OF that] by simp
  show ?thesis
    unfolding check_comments_documentation_new [OF assms]
    using count alice
    by (intro exI [of _ ?new] exI conjI allI impI) (rule refl, rule documentation_loop_violations, blast+)
qed

text \<open>In \<^verbatim>\<open>/proj/todo.ts\<close> only line 3 is reported.\<close>

theorem todo_rule_witness:
  "open_read todo_project (str ''/proj/todo.ts'') = Inr todo_text \<and>
   py_in (str ''TODO(@alice)'') (readlines todo_text ! 1) \<and>
   check_comments_documentation todo_project (init (str ''/proj'')) (str ''/proj/todo.ts'') =
     Inr \<lparr>project_path = str ''/proj'',
          violations = [todo_violation (str ''/proj/todo.ts'') 3]\<rparr>"
proof -
  have readable: "open_read todo_project (str ''/proj/todo.ts'') = Inr todo_text"
    by (simp add: todo_project_def empty_project_def)
  have alice: "py_in (str ''TODO(@alice)'') (readlines todo_text ! 1)"
    by code_simp
  have run: "check_comments_documentation todo_project (init (str ''/proj'')) (str ''/proj/todo.ts'') =
     Inr \<lparr>project_path = str ''/proj'',
          violations = [todo_violation (str ''/proj/todo.ts'') 3]\<rparr>"
    by code_simp
  show ?thesis
    using todo_rule_per_line [OF readable, of "init (str ''/proj'')"] readable alice run
    by simp
qed

text \<open>
  C7 as it is stated fails on line 1 of \<^verbatim>\<open>/proj/todo.ts\<close>: at column 3 the line has a
  \<^verbatim>\<open>TODO\<close> at which the assignee pattern does not match, and the check reports nothing for
  line 1, because the pattern is found further right in the same line.
\<close>

theorem todo_occurrence_counterexample:
  "prefix (str ''TODO'') (drop 3 (readlines todo_text ! 0)) \<and>
   rmatch (todo_pattern ascii_ucd) 3 (drop 3 (readlines todo_text ! 0)) = None \<and>
   check_comments_documentation todo_project (init (str ''/proj'')) (str ''/proj/todo.ts'') =
     Inr \<lparr>project_path = str ''/proj'',
          violations = [todo_violation (str ''/proj/todo.ts'') 3]\<rparr> \<and>
   count_list [todo_violation (str ''/proj/todo.ts'') 3] (todo_violation (str ''/proj/todo.ts'') 1) = 0"
  by code_simp

subsection \<open>The run over the files\<close>

lemma naming_loop_path [simp]:
  "project_path (naming_loop fp content what ms c) = project_path c"
  by (induction ms arbitrary: c) auto

lemma imports_loop_path [simp]:
  "project_path (imports_loop U fp xs c) = project_path c"
  by (induction xs arbitrary: c) auto

lemma check_file_naming_path [simp]:
  "project_path (check_file_naming c fp) = project_path c"
  by (simp add: check_file_naming_def Let_def)

lemma check_file_unreadable:
  "open_read E fp = Inl e \<Longrightarrow> check_file E c fp = Inl e"
  by (simp add: check_file_def then_do_def check_line_length_def)

lemma check_file_readable:
  assumes "open_read E fp = Inr s"
  shows "\<exists>c'. check_file E c fp = Inr c' \<and> project_path c' = project_path c"
  using assms
  by (simp add: check_file_def then_do_def check_line_length_def check_naming_conventions_def
      check_imports_def check_comments_documentation_def)

lemma check_file_cong:
  assumes "open_read E fp = open_read E' fp" and "unicode E = unicode E'"
  shows "check_file E c fp = check_file E' c fp"
  unfolding check_file_def check_line_length_def check_naming_conventions_def
    check_imports_def check_comments_documentation_def assms ..



lemma check_files_append:
  "check_files E (xs @ ys) c = then_do (check_files E xs c) (check_files E ys)"
  by (induction xs arbitrary: c) (auto simp: then_do_def split: sum.splits)

lemma files_loop_check_files:
  "files_loop E root files c = check_files E (map (path_join root) (filter is_ts_file files)) c"
  by (induction files arbitrary: c) (auto simp: then_do_def split: sum.splits)

lemma walk_loop_check_files:
  "walk_loop E ws c =
     check_files E
       (concat (map (\<lambda>(dir, dirs, files). map (path_join dir) (filter is_ts_file files)) ws)) c"
  by (induction ws arbitrary: c)
    (auto simp: then_do_def files_loop_check_files check_files_append split: sum.splits)


lemma check_files_readable:
  assumes "\<forall>fp\<in>set fps. \<exists>s. open_read E fp = Inr s"
  shows "\<exists>c'. check_files E fps c = Inr c' \<and> project_path c' = project_path c"
  using assms
proof (induction fps arbitrary: c)
  case Nil
  then show ?case by simp
next
  case (Cons fp fps)
  then obtain s where "open_read E fp = Inr s" by auto
  then obtain c1 where c1: "check_file E c fp = Inr c1" "project_path c1 = project_path c"
    using check_file_readable by blast
  from Cons obtain c' where "check_files E fps c1 = Inr c'" "project_path c' = project_path c1"
    by fastforce
  with c1 show ?case by (simp add: then_do_def)
qed

lemma check_files_unreadable:
  assumes "\<forall>q\<in>set pre. \<exists>s. open_read E q = Inr s" and "open_read E fp = Inl e"
  shows "check_files E (pre @ fp # post) c = Inl e"
proof -
  from check_files_readable [OF assms(1)] obtain c1 where "check_files E pre c = Inr c1"
    by blast
  then show ?thesis
    using assms(2) by (simp add: check_files_append then_do_def check_file_unreadable)
qed

lemma check_files_path:
  "check_files E fps c = Inr c' \<Longrightarrow> project_path c' = project_path c"
proof (induction fps arbitrary: c)
  case Nil
  then show ?case by simp
next
  case (Cons fp fps)
  show ?case
  proof (cases "open_read E fp")
    case (Inl e)
    with Cons.prems show ?thesis by (simp add: then_do_def check_file_unreadable)
  next
    case (Inr s)
    then obtain c1 where c1: "check_file E c fp = Inr c1" "project_path c1 = project_path c"
      using check_file_readable by blast
    with Cons.prems have "check_files E fps c1 = Inr c'" by (simp add: then_do_def)
    with Cons.IH c1 show ?thesis by simp
  qed
qed

lemma check_project_structure_path [simp]:
  "project_path (check_project_structure E c) = project_path c"
  by (simp add: check_project_structure_def)

lemma check_all_check_files:
  "check_all E c =
     then_do (check_files E (discovered E (project_path c)) (check_project_structure E c))
       (run_eslint_check E)"
  by (simp add: check_all_def walk_loop_check_files discovered_def)

text \<open>The run on the sample project, from a new checker.\<close>

lemma sample_project_run:
  "check_all sample_project (init (str ''/proj'')) =
     Inr \<lparr>project_path = str ''/proj'', violations = sample_violations\<rparr>"
  by code_simp

text \<open>
  C1, as the code has it: no check handles an error of opening or decoding a file. When
  every discovered source file can be read, the loop over the files returns normally and
  the run goes on to the lint step, whose result is the result of \<^verbatim>\<open>check_all\<close>. When a
  discovered file cannot be read and those before it can, the error of that file leaves
  \<^verbatim>\<open>check_all\<close>: the run is aborted.
\<close>

theorem check_all_file_errors:
  "((\<forall>fp\<in>set (discovered E (project_path c)). \<exists>s. open_read E fp = Inr s) \<longrightarrow>
      (\<exists>c1. walk_loop E (walk E (project_path c)) (check_project_structure E c) = Inr c1 \<and>
            check_all E c = run_eslint_check E c1)) \<and>
   (\<forall>pre fp post e.
      discovered E (project_path c) = pre @ fp # post \<and>
      (\<forall>q\<in>set pre. \<exists>s. open_read E q = Inr s) \<and> open_read E fp = Inl e \<longrightarrow>
      check_all E c = Inl e)"
proof (intro conjI impI allI)
  assume "\<forall>fp\<in>set (discovered E (project_path c)). \<exists>s. open_read E fp = Inr s"
  from check_files_readable [OF this]
  obtain c1 where
    "check_files E (discovered E (project_path c)) (check_project_structure E c) = Inr c1"
    by blast
  then show "\<exists>c1. walk_loop E (walk E (project_path c)) (check_project_structure E c) = Inr c1 \<and>
                 check_all E c = run_eslint_check E c1"
    by (simp add: check_all_def walk_loop_check_files discovered_def then_do_def)
next
  fix pre fp post e
  assume "discovered E (project_path c) = pre @ fp # post \<and>
          (\<forall>q\<in>set pre. \<exists>s. open_read E q = Inr s) \<and> open_read E fp = Inl e"
  then show "check_all E c = Inl e"
    by (simp add: check_all_check_files check_files_unreadable then_do_def)
qed

text \<open>
  On the sample project the loop over the files returns; in the project whose second
  source file cannot be decoded the run ends with \<^verbatim>\<open>UnicodeDecodeError\<close>.
\<close>

theorem check_all_file_errors_witness:
  "(\<exists>c1. walk_loop sample_project (walk sample_project (str ''/proj''))
           (check_project_structure sample_project (init (str ''/proj''))) = Inr c1 \<and>
         check_all sample_project (init (str ''/proj'')) = run_eslint_check sample_project c1) \<and>
   discovered undecodable_project (str ''/proj'') =
     [str ''/proj/src/MyClass.ts''] @ str ''/proj/src/todo.ts'' # [] \<and>
   open_read undecodable_project (str ''/proj/src/MyClass.ts'') = Inr myclass_text \<and>
   open_read undecodable_project (str ''/proj/src/todo.ts'') = Inl UnicodeDecodeError \<and>
   check_all undecodable_project (init (str ''/proj'')) = Inl UnicodeDecodeError"
proof -
  have root: "project_path (init (str ''/proj'')) = str ''/proj''"
    by (simp add: init_def)
  have found: "discovered sample_project (str ''/proj'') =
                 [str ''/proj/src/MyClass.ts'', str ''/proj/src/todo.ts'']"
    by code_simp
  have readable: "\<forall>fp\<in>set (discovered sample_project (project_path (init (str ''/proj'')))).
                    \<exists>s. open_read sample_project fp = Inr s"
    unfolding root found by (simp add: sample_project_def)
  have found': "discovered undecodable_project (project_path (init (str ''/proj''))) =
                 [str ''/proj/src/MyClass.ts''] @ str ''/proj/src/todo.ts'' # []"
    unfolding root by code_simp
  have first: "\<forall>q\<in>set [str ''/proj/src/MyClass.ts'']. \<exists>s. open_read undecodable_project q = Inr s"
    by (simp add: undecodable_project_def)
  have second: "open_read undecodable_project (str ''/proj/src/todo.ts'') = Inl UnicodeDecodeError"
    by code_simp
  note inst = check_all_file_errors [of sample_project "init (str ''/proj'')"]
    check_all_file_errors [of undecodable_project "init (str ''/proj'')"]
  from inst(1) readable have a:
    "\<exists>c1. walk_loop sample_project (walk sample_project (str ''/proj''))
           (check_project_structure sample_project (init (str ''/proj''))) = Inr c1 \<and>
         check_all sample_project (init (str ''/proj'')) = run_eslint_check sample_project c1"
    unfolding root by blast
  from inst(2) found' first second
  have b: "check_all undecodable_project (init (str ''/proj'')) = Inl UnicodeDecodeError"
    by blast
  from a b found' second show ?thesis
    unfolding root by (simp add: undecodable_project_def)
qed

text \<open>
  C1 as it is stated fails: in the project whose second source file cannot be decoded,
  \<^verbatim>\<open>check_all\<close> does not return a list.
\<close>

theorem check_all_aborts_counterexample:
  "discovered undecodable_project (str ''/proj'') =
     [str ''/proj/src/MyClass.ts'', str ''/proj/src/todo.ts''] \<and>
   open_read undecodable_project (str ''/proj/src/todo.ts'') = Inl UnicodeDecodeError \<and>
   check_all undecodable_project (init (str ''/proj'')) = Inl UnicodeDecodeError"
  by code_simp

subsection \<open>Two runs\<close>

lemma structure_loop_cong:
  assumes "list_all (\<lambda>name. path_exists E (path_join (project_path c) name) =
                              path_exists E' (path_join (project_path c) name)) names"
  shows "structure_loop E what names c = structure_loop E' what names c"
  using assms by (induction names arbitrary: c) simp_all

lemma check_project_structure_cong:
  assumes "list_all (\<lambda>name. path_exists E (path_join (project_path c) name) =
                              path_exists E' (path_join (project_path c) name))
             (required_files @ required_dirs)"
  shows "check_project_structure E c = check_project_structure E' c"
  using assms structure_loop_cong [of E c E' required_files]
    structure_loop_cong [of E "structure_loop E' (str ''Missing required file: '') required_files c"
      E' required_dirs]
  by (simp add: check_project_structure_def)

lemma check_files_cong:
  assumes "list_all (\<lambda>fp. open_read E fp = open_read E' fp) fps" and "unicode E = unicode E'"
  shows "check_files E fps c = check_files E' fps c"
  using assms
proof (induction fps arbitrary: c)
  case Nil
  then show ?case by simp
next
  case (Cons fp fps)
  then have "check_file E c fp = check_file E' c fp"
    by (intro check_file_cong) simp_all
  with Cons show ?case by (simp add: then_do_def split: sum.splits)
qed

lemma run_eslint_check_cong:
  assumes "subprocess_run E (project_path c) = subprocess_run E' (project_path c)"
    and "json_loads E = json_loads E'"
  shows "run_eslint_check E c = run_eslint_check E' c"
  unfolding run_eslint_check_def assms ..

text \<open>
  C8. A run is \<^verbatim>\<open>check_all\<close> on a checker whose project path is the root; \<^verbatim>\<open>main\<close>
  constructs a new checker, with an empty violation list, for every run. When two states
  of the world look the same to a run on the root, the two runs from the same checker
  have the same result: the same list in the same order, or the same exception.
\<close>

theorem check_all_same_tree:
  assumes "same_tree E E' (project_path c)"
  shows "check_all E c = check_all E' c"
proof -
  let ?root = "project_path c"
  from assms have disc: "discovered E ?root = discovered E' ?root"
    by (simp add: same_tree_def)
  from assms have struct: "check_project_structure E c = check_project_structure E' c"
    by (intro check_project_structure_cong) (simp add: same_tree_def)
  from assms have reads: "list_all (\<lambda>fp. open_read E fp = open_read E' fp) (discovered E ?root)"
    and uni: "unicode E = unicode E'"
    unfolding same_tree_def by blast+
  have "check_files E (discovered E ?root) c1 = check_files E' (discovered E ?root) c1" for c1
    using reads uni by (rule check_files_cong)
  then have files:
    "check_files E (discovered E ?root) c1 = check_files E' (discovered E' ?root) c1" for c1
    by (simp add: disc)
  have lint: "run_eslint_check E c1 = run_eslint_check E' c1"
    if "check_files E' (discovered E' ?root) (check_project_structure E' c) = Inr c1" for c1
  proof -
    from check_files_path [OF that] have "project_path c1 = ?root" by simp
    with assms show ?thesis by (intro run_eslint_check_cong) (simp_all add: same_tree_def)
  qed
  show ?thesis
    unfolding check_all_check_files struct files
    using lint by (auto simp: then_do_def split: sum.splits)
qed

text \<open>
  Calling \<^verbatim>\<open>check_all\<close> a second time on the checker of the first run is not a second
  run: the list of the checker keeps what the first call found.
\<close>

lemma second_call_on_same_checker:
  "check_all sample_project \<lparr>project_path = str ''/proj'', violations = sample_violations\<rparr> =
     Inr \<lparr>project_path = str ''/proj'', violations = sample_violations @ sample_violations\<rparr>"
  by code_simp

text \<open>
  The sample project before and after a run of \<^verbatim>\<open>main\<close>: the walk differs, the source
  tree does not, and both runs from a new checker return the same eleven violations.
\<close>

theorem check_all_same_tree_witness:
  "same_tree sample_project sample_project_later (str ''/proj'') \<and>
   walk sample_project (str ''/proj'') \<noteq> walk sample_project_later (str ''/proj'') \<and>
   check_all sample_project (init (str ''/proj'')) =
     Inr \<lparr>project_path = str ''/proj'', violations = sample_violations\<rparr> \<and>
   check_all sample_project_later (init (str ''/proj'')) =
     Inr \<lparr>project_path = str ''/proj'', violations = sample_violations\<rparr>"
proof -
  have root: "project_path (init (str ''/proj'')) = str ''/proj''"
    by (simp add: init_def)
  have same: "same_tree sample_project sample_project_later (str ''/proj'')"
    unfolding same_tree_def
  proof (intro conjI)
    show "json_loads sample_project = json_loads sample_project_later"
      by (simp add: sample_project_later_def)
    show "unicode sample_project = unicode sample_project_later"
      by (simp add: sample_project_later_def)
  qed code_simp+
  have differ: "walk sample_project (str ''/proj'') \<noteq> walk sample_project_later (str ''/proj'')"
    by code_simp
  note run = sample_project_run
  from check_all_same_tree [of sample_project sample_project_later "init (str ''/proj'')"] same
  have "check_all sample_project (init (str ''/proj'')) =
        check_all sample_project_later (init (str ''/proj''))"
    unfolding root by blast
  with same differ run show ?thesis by simp
qed

subsection \<open>The extension test\<close>

lemma basename_keeps_suffix:
  assumes "endswith p x" and "sep \<notin> set x"
  shows "endswith (basename p) x"
proof -
  from assms(1) obtain q where p: "p = q @ x" by (auto simp: endswith_def suffix_def)
  from assms(2) have "takeWhile (\<lambda>c. c \<noteq> sep) (rev x @ rev q) =
                      rev x @ takeWhile (\<lambda>c. c \<noteq> sep) (rev q)"
    by (intro takeWhile_append2) auto
  then show ?thesis
    by (simp add: p basename_def endswith_def suffix_def)
qed

lemma path_join_keeps_suffix:
  assumes "endswith file x"
  shows "endswith (path_join root file) x"
  using assms by (auto simp: path_join_def endswith_def suffix_def)

lemma ts_file_extension_ok:
  assumes "is_ts_file file"
  shows "list_ex (endswith (basename (path_join root file))) file_extensions"
proof -
  have no_sep: "sep \<notin> set (str ''.ts'')" "sep \<notin> set (str ''.tsx'')"
    by (simp_all add: sep_def str_def cp_def)
  from assms consider "endswith file (str ''.ts'')" | "endswith file (str ''.tsx'')"
    by (auto simp: is_ts_file_def)
  then show ?thesis
  proof cases
    case 1
    then have "endswith (basename (path_join root file)) (str ''.ts'')"
      by (intro basename_keeps_suffix path_join_keeps_suffix no_sep)
    then show ?thesis by (simp add: file_extensions_def)
  next
    case 2
    then have "endswith (basename (path_join root file)) (str ''.tsx'')"
      by (intro basename_keeps_suffix path_join_keeps_suffix no_sep)
    then show ?thesis by (simp add: file_extensions_def)
  qed
qed

lemma no_ext_append:
  "no_ext c \<Longrightarrow> \<not> invalid_extension_violation v \<Longrightarrow> no_ext (append_violation c v)"
  by (simp add: no_ext_def)

lemma no_ext_other_rule:
  "rule v \<noteq> str ''file_naming'' \<Longrightarrow> \<not> invalid_extension_violation v"
  by (simp add: invalid_extension_violation_def)

lemma no_ext_structure_loop: "no_ext c \<Longrightarrow> no_ext (structure_loop E what names c)"
  by (induction names arbitrary: c)
    (simp_all add: no_ext_append no_ext_other_rule str_def)

lemma no_ext_line_length_loop: "no_ext c \<Longrightarrow> no_ext (line_length_loop U fp m xs c)"
  by (induction xs arbitrary: c)
    (auto simp: no_ext_append no_ext_other_rule str_def)

lemma no_ext_naming_loop: "no_ext c \<Longrightarrow> no_ext (naming_loop fp content what ms c)"
  by (induction ms arbitrary: c)
    (auto simp: no_ext_append no_ext_other_rule str_def)

lemma no_ext_imports_loop: "no_ext c \<Longrightarrow> no_ext (imports_loop U fp xs c)"
  by (induction xs arbitrary: c)
    (auto simp: no_ext_append no_ext_other_rule str_def)

lemma no_ext_documentation_loop:
  "no_ext c \<Longrightarrow> no_ext (documentation_loop U fp content xs c)"
  by (induction xs arbitrary: c)
    (auto simp: documentation_step_def Let_def todo_violation_def jsdoc_violation_def
      no_ext_append no_ext_other_rule str_def)

lemma no_ext_check_file_naming:
  assumes "no_ext c" and "list_ex (endswith (basename fp)) file_extensions"
  shows "no_ext (check_file_naming c fp)"
  using assms
  by (auto simp: check_file_naming_def Let_def no_ext_def invalid_extension_violation_def
      startswith_def str_def)

lemma no_ext_check_file:
  assumes "no_ext c" and "is_ts_file file" and "check_file E c (path_join root file) = Inr c'"
  shows "no_ext c'"
proof -
  have "no_ext (check_file_naming c (path_join root file))"
    using assms(1,2) by (intro no_ext_check_file_naming ts_file_extension_ok)
  with assms(3) show ?thesis
    by (auto simp: check_file_def then_do_def check_line_length_def check_naming_conventions_def
        check_imports_def check_comments_documentation_def
        no_ext_line_length_loop no_ext_naming_loop no_ext_imports_loop no_ext_documentation_loop
        split: sum.splits)
qed

lemma no_ext_files_loop:
  "no_ext c \<Longrightarrow> files_loop E root files c = Inr c' \<Longrightarrow> no_ext c'"
proof (induction files arbitrary: c)
  case Nil
  then show ?case by simp
next
  case (Cons f fs)
  show ?case
  proof (cases "is_ts_file f")
    case True
    with Cons.prems obtain c1 where
      c1: "check_file E c (path_join root f) = Inr c1" "files_loop E root fs c1 = Inr c'"
      by (auto simp: then_do_def split: sum.splits)
    from no_ext_check_file [OF Cons.prems(1) True c1(1)] Cons.IH c1(2) show ?thesis by blast
  next
    case False
    with Cons show ?thesis by simp
  qed
qed

lemma no_ext_walk_loop:
  "no_ext c \<Longrightarrow> walk_loop E ws c = Inr c' \<Longrightarrow> no_ext c'"
proof (induction ws arbitrary: c)
  case Nil
  then show ?case by simp
next
  case (Cons w ws)
  obtain root dirs fs where w: "w = (root, dirs, fs)" by (cases w) auto
  with Cons.prems obtain c1 where
    c1: "files_loop E root fs c = Inr c1" "walk_loop E ws c1 = Inr c'"
    by (auto simp: then_do_def split: sum.splits)
  from no_ext_files_loop [OF Cons.prems(1) c1(1)] Cons.IH c1(2) show ?case by blast
qed

lemma no_ext_messages_loop:
  "no_ext c \<Longrightarrow> messages_loop fr ms c = Inr c' \<Longrightarrow> no_ext c'"
proof (induction ms arbitrary: c)
  case Nil
  then show ?case by simp
next
  case (Cons m ms)
  from Cons.prems(2) obtain p n t where
    "messages_loop fr ms
       (append_violation c \<lparr>file_path = p, line_number = n, rule = str ''eslint'', message = t\<rparr>) =
     Inr c'"
    by (auto simp: then_do_def eslint_violation_def
        split: sum.splits json.splits)
  then obtain v where
    v: "rule v = str ''eslint''" "messages_loop fr ms (append_violation c v) = Inr c'"
    by force
  from v(1) have "\<not> invalid_extension_violation v"
    by (simp add: invalid_extension_violation_def str_def)
  with Cons.prems(1) have "no_ext (append_violation c v)" by (rule no_ext_append)
  with Cons.IH v(2) show ?case by blast
qed

lemma no_ext_results_loop:
  "no_ext c \<Longrightarrow> results_loop rs c = Inr c' \<Longrightarrow> no_ext c'"
proof (induction rs arbitrary: c)
  case Nil
  then show ?case by simp
next
  case (Cons r rs)
  from Cons.prems(2) obtain ms c1 where
    c1: "messages_loop r ms c = Inr c1" "results_loop rs c1 = Inr c'"
    by (auto simp: then_do_def split: sum.splits)
  from no_ext_messages_loop [OF Cons.prems(1) c1(1)] Cons.IH c1(2) show ?case by blast
qed

lemma no_ext_run_eslint_check:
  "no_ext c \<Longrightarrow> run_eslint_check E c = Inr c' \<Longrightarrow> no_ext c'"
  by (auto simp: run_eslint_check_def then_do_def no_ext_results_loop
      split: run_result.splits if_splits option.splits sum.splits)

text \<open>
  C9. A file name that ends in \<^verbatim>\<open>.ts\<close> or \<^verbatim>\<open>.tsx\<close>, joined to any directory, has a base
  name that passes the extension test of \<^verbatim>\<open>check_file_naming\<close>; and a run that returns
  adds no \<^verbatim>\<open>file_naming\<close> violation whose message starts with \<^verbatim>\<open>Invalid file extension\<close>:
  when the checker holds none before \<^verbatim>\<open>check_all\<close> (a new checker holds none), it holds
  none after.
\<close>

theorem invalid_extension_unreachable:
  "(\<forall>root name. is_ts_file name \<longrightarrow>
      list_ex (endswith (basename (path_join root name))) file_extensions) \<and>
   ((\<forall>v\<in>set (violations c). \<not> invalid_extension_violation v) \<and> check_all E c = Inr c' \<longrightarrow>
      (\<forall>v\<in>set (violations c'). \<not> invalid_extension_violation v))"
proof (intro conjI allI impI)
  fix root name
  assume "is_ts_file name"
  then show "list_ex (endswith (basename (path_join root name))) file_extensions"
    by (rule ts_file_extension_ok)
next
  assume a: "(\<forall>v\<in>set (violations c). \<not> invalid_extension_violation v) \<and> check_all E c = Inr c'"
  then have "no_ext c" by (simp add: no_ext_def)
  then have "no_ext (check_project_structure E c)"
    unfolding check_project_structure_def by (intro no_ext_structure_loop)
  moreover from a obtain c1 where
    "walk_loop E (walk E (project_path c)) (check_project_structure E c) = Inr c1"
    "run_eslint_check E c1 = Inr c'"
    by (auto simp: check_all_def then_do_def split: sum.splits)
  ultimately have "no_ext c'"
    using no_ext_walk_loop no_ext_run_eslint_check by blast
  then show "\<forall>v\<in>set (violations c'). \<not> invalid_extension_violation v"
    by (simp add: no_ext_def)
qed

text \<open>
  The run on the sample project: \<^verbatim>\<open>MyClass.ts\<close> gets a \<^verbatim>\<open>file_naming\<close> violation for its
  name, none for its extension.
\<close>

theorem invalid_extension_unreachable_witness:
  "is_ts_file (str ''MyClass.ts'') \<and>
   check_all sample_project (init (str ''/proj'')) =
     Inr \<lparr>project_path = str ''/proj'', violations = sample_violations\<rparr> \<and>
   list_ex (\<lambda>v. rule v = str ''file_naming'') sample_violations \<and>
   \<not> list_ex invalid_extension_violation sample_violations"
proof -
  have ts: "is_ts_file (str ''MyClass.ts'')"
    by code_simp
  have fresh: "\<forall>v\<in>set (violations (init (str ''/proj''))). \<not> invalid_extension_violation v"
    by (simp add: init_def)
  note run = sample_project_run
  have naming: "list_ex (\<lambda>v. rule v = str ''file_naming'') sample_violations"
    by code_simp
  from invalid_extension_unreachable
    [of "init (str ''/proj'')" sample_project
      "\<lparr>project_path = str ''/proj'', violations = sample_violations\<rparr>"]
    fresh run
  have "\<forall>v\<in>set sample_violations. \<not> invalid_extension_violation v"
    by simp
  then have "\<not> list_ex invalid_extension_violation sample_violations"
    by (simp add: list_ex_iff)
  with ts run naming show ?thesis by simp
qed

subsection \<open>The report\<close>














subsection \<open>Class and interface names\<close>

text \<open>
  The negative lookahead of the two patterns starts with \<^verbatim>\<open>^\<close>, which matches at
  position 0 only, and it is tried after \<^verbatim>\<open>class\<close> (or \<^verbatim>\<open>interface\<close>) and whitespace:
  it never rejects a name.
\<close>

lemma class_lookahead_dead:
  "rmatch (class_pattern U) i rest =
   rmatch (lit ''class'' @ [Rep (is_space U) 1, Mark, Rep (is_word U) 1, Mark]) i rest"
  by (simp add: class_pattern_def lit_def split: list.splits)

lemma interface_lookahead_dead:
  "rmatch (interface_pattern U) i rest =
   rmatch (lit ''interface'' @ [Rep (is_space U) 1, Mark, Rep (is_word U) 1, Mark]) i rest"
  by (simp add: interface_pattern_def lit_def split: list.splits)

text \<open>
  C2 fails on the code: in \<^verbatim>\<open>/proj/shapes.ts\<close> the class \<^verbatim>\<open>Circle\<close> is PascalCase and the
  interface \<^verbatim>\<open>IShape\<close> is PascalCase with a leading \<^verbatim>\<open>I\<close>, and the check reports
  both.
\<close>

theorem conforming_names_reported:
  "check_naming_conventions shapes_project (init (str ''/proj'')) (str ''/proj/shapes.ts'') =
     Inr \<lparr>project_path = str ''/proj'',
          violations =
            [violation ''/proj/shapes.ts'' 1 ''naming_convention''
               ''Class name should be PascalCase: Circle'',
             violation ''/proj/shapes.ts'' 2 ''naming_convention''
               ''Interface name should be PascalCase with I prefix: IShape'']\<rparr>"
  by code_simp

subsection \<open>The lint step\<close>

lemma run_eslint_check_unparseable:
  assumes "subprocess_run E (project_path c) = CompletedProcess returncode out"
    and "json_loads E out = None"
  shows "run_eslint_check E c = Inr c"
  using assms by (simp add: run_eslint_check_def)

lemma run_eslint_check_raises:
  assumes "subprocess_run E (project_path c) = Raises e" and "e \<noteq> CalledProcessError"
  shows "run_eslint_check E c = Inl e"
  using assms by (simp add: run_eslint_check_def)

text \<open>
  C3 fails on the code: where the lint command cannot be started, the exception of
  \<^verbatim>\<open>subprocess.run\<close> is none of the two that the method handles; it leaves
  \<^verbatim>\<open>run_eslint_check\<close> and \<^verbatim>\<open>check_all\<close>, and no report is generated.
\<close>

theorem eslint_start_failure_escapes:
  "run_eslint_check no_npx_project (init (str ''/proj'')) = Inl OSError \<and>
   check_all no_npx_project (init (str ''/proj'')) = Inl OSError"
  by code_simp

end
